theory Spec2Isabelle
  imports Complex_Main "HOL-Library.AList"
begin

section \<open>The water-monitor relay server\<close>

text \<open>
  The repository holds three revisions of the class \<open>WaterMonitorServer\<close>:
  \<^item> \<open>src/server.ts\<close>: the role of a socket is read from the request header
    \<open>x-device-type\<close> when the connection is accepted;
  \<^item> \<open>part_000\<close>: the same server with more logging, and a \<open>try\<close> around the
    first send to a new subscriber;
  \<^item> \<open>part_002\<close>: a socket becomes publisher or subscriber when it sends a
    \<open>{type: "register", role}\<close> frame.
  Definitions without a suffix embed \<open>src/server.ts\<close>; the suffix \<open>_p0\<close> marks
  \<open>part_000\<close> and \<open>_reg\<close> marks \<open>part_002\<close>.

  A socket is identified by a number (the identity of the JavaScript object). Every
  callback is a function from the server state to the new state and the list of calls
  it made on sockets, in order. Whether a call of the \<open>ws\<close> library throws is an input
  (\<open>outcomes\<close>), fixed for the run of one callback. Informational logging
  (\<open>console.log\<close>, the levels \<open>INFO\<close> and \<open>DEBUG\<close>) is left out; the \<open>Log\<close> effect
  records the \<open>catch\<close> blocks and the warnings.
\<close>

subsection \<open>Data\<close>

type_synonym conn = nat

datatype json =
    JNull
  | JBool bool
  | JNum rat
  | JStr string
  | JArr "json list"
  | JObj "(string \<times> json) list"

text \<open>\<open>SensorData\<close>: the own properties of a parsed object, in insertion order.\<close>

type_synonym SensorData = "(string \<times> json) list"

text \<open>A text frame as it reaches the \<open>message\<close> listener: \<open>JSON.parse\<close> throws
  (\<open>Unparseable\<close>, with the text) or returns a value.\<close>

datatype frame = Unparseable string | Parsed json

datatype payload = Text string | Stringify json

datatype level = INFO | ERROR | DEBUG | WARN

datatype effect =
    Send conn payload
  | Close conn nat string
  | Terminate conn
  | Ping conn
  | Log level string

record outcomes =
  send_throws :: "conn \<Rightarrow> bool"
  close_throws :: "conn \<Rightarrow> bool"
  ping_throws :: "conn \<Rightarrow> bool"
  readyState_OPEN :: "conn \<Rightarrow> bool"

text \<open>
  The fields \<open>subscribers\<close>, \<open>publisher\<close> and \<open>latestData\<close> of the class, the set
  \<open>wss.clients\<close> that the library keeps, and the fields the code stores on each
  socket: \<open>isAlive\<close>, and the role (\<open>extWs.type\<close> and the constant \<open>isPublisher\<close> of
  the connection callback in \<open>src/server.ts\<close>, the mutable field \<open>isPublisher\<close> in
  \<open>part_002\<close>).
\<close>

record server =
  subscribers :: "conn list"
  publisher :: "conn option"
  latestData :: SensorData
  clients :: "conn list"
  isAlive :: "conn \<Rightarrow> bool"
  isPublisher :: "conn \<Rightarrow> bool"

definition server0 :: server where
  "server0 = \<lparr>subscribers = [], publisher = None, latestData = [], clients = [],
     isAlive = (\<lambda>_. False), isPublisher = (\<lambda>_. False)\<rparr>"

datatype event =
    Connection conn bool
  | Message conn frame
  | Pong conn
  | Closed conn
  | Tick

subsection \<open>\<open>src/server.ts\<close>\<close>

text \<open>\<open>GET /health\<close> (the same in the three revisions).\<close>

definition health :: "server \<Rightarrow> (string \<times> json) list" where
  "health s =
     [(''status'', JStr ''healthy''),
      (''subscribers'', JNum (of_nat (length (subscribers s)))),
      (''publisher'', JStr (if publisher s \<noteq> None then ''connected'' else ''disconnected''))]"

text \<open>\<open>try { this.publisher.close(1000, 'New publisher connected') } catch { console.error }\<close>\<close>

definition close_previous :: "outcomes \<Rightarrow> conn \<Rightarrow> effect list" where
  "close_previous io p =
     Close p 1000 ''New publisher connected''
       # (if close_throws io p then [Log ERROR ''Error closing previous publisher''] else [])"

text \<open>The body of the \<open>connection\<close> callback up to the registration of the listeners.
  The third component says that an exception left the callback.\<close>

definition on_connection :: "outcomes \<Rightarrow> conn \<Rightarrow> bool \<Rightarrow> server \<Rightarrow> server \<times> effect list \<times> bool" where
  "on_connection io extWs isPub s0 =
     (let s = s0\<lparr>isAlive := (isAlive s0)(extWs := True),
                  isPublisher := (isPublisher s0)(extWs := isPub)\<rparr>
      in if isPub then
           (s\<lparr>publisher := Some extWs\<rparr>,
            (case publisher s of None \<Rightarrow> [] | Some p \<Rightarrow> close_previous io p),
            False)
         else
           (let s' = s\<lparr>subscribers := subscribers s @ [extWs]\<rparr>
            in if latestData s' \<noteq> []
               then (s', [Send extWs (Stringify (JObj (latestData s')))], send_throws io extWs)
               else (s', [], False)))"

definition on_pong :: "conn \<Rightarrow> server \<Rightarrow> server" where
  "on_pong extWs s = s\<lparr>isAlive := (isAlive s)(extWs := True)\<rparr>"

text \<open>The loop of \<open>broadcastToSubscribers\<close> over the copy of the array: the second list
  is \<open>this.subscribers\<close>, from which \<open>indexOf\<close> and \<open>splice(index, 1)\<close> take the first
  occurrence of a subscriber whose \<open>send\<close> threw.\<close>

fun fan_out :: "outcomes \<Rightarrow> payload \<Rightarrow> conn list \<Rightarrow> conn list \<Rightarrow> conn list \<times> effect list" where
  "fan_out io jsonData [] subs = (subs, [])"
| "fan_out io jsonData (subscriber # rest) subs =
     (if send_throws io subscriber
      then (case fan_out io jsonData rest (remove1 subscriber subs) of
              (subs', effs) \<Rightarrow>
                (subs', Send subscriber jsonData # Log ERROR ''Error al enviar datos'' # effs))
      else (case fan_out io jsonData rest subs of
              (subs', effs) \<Rightarrow> (subs', Send subscriber jsonData # effs)))"

definition broadcastToSubscribers :: "outcomes \<Rightarrow> SensorData \<Rightarrow> server \<Rightarrow> server \<times> effect list" where
  "broadcastToSubscribers io data s0 =
     (let s = s0\<lparr>latestData := data\<rparr>
      in if subscribers s = [] then (s, [])
         else (case fan_out io (Stringify (JObj data)) (subscribers s) (subscribers s) of
                 (subs', effs) \<Rightarrow> (s\<lparr>subscribers := subs'\<rparr>, effs)))"

text \<open>The \<open>message\<close> listener. \<open>'C' in data\<close> throws a TypeError on a primitive value and
  is false on an array; \<open>data.type\<close> throws on \<open>null\<close>. Both are caught by the listener's
  \<open>catch\<close>.\<close>

definition on_message :: "outcomes \<Rightarrow> bool \<Rightarrow> frame \<Rightarrow> server \<Rightarrow> server \<times> effect list" where
  "on_message io isPub message s =
     (case message of
        Unparseable raw \<Rightarrow> (s, [Log ERROR ''Error: Datos no validos''])
      | Parsed data \<Rightarrow>
          (if isPub then
             (case data of
                JObj kvs \<Rightarrow>
                  if ''C'' \<in> set (map fst kvs) then broadcastToSubscribers io kvs s else (s, [])
              | JArr xs \<Rightarrow> (s, [])
              | _ \<Rightarrow> (s, [Log ERROR ''Error: Datos no validos'']))
           else
             (case data of
                JNull \<Rightarrow> (s, [Log ERROR ''Error: Datos no validos''])
              | _ \<Rightarrow> (s, []))))"

text \<open>The \<open>close\<close> listener.\<close>

definition on_close :: "conn \<Rightarrow> bool \<Rightarrow> server \<Rightarrow> server" where
  "on_close extWs isPub s =
     (if isPub then (if publisher s = Some extWs then s\<lparr>publisher := None\<rparr> else s)
      else s\<lparr>subscribers := remove1 extWs (subscribers s)\<rparr>)"

text \<open>The callback of \<open>setInterval\<close>: one pass over \<open>wss.clients\<close>.\<close>

fun ping_all :: "outcomes \<Rightarrow> conn list \<Rightarrow> (conn \<Rightarrow> bool) \<Rightarrow> (conn \<Rightarrow> bool) \<times> effect list" where
  "ping_all io [] alive = (alive, [])"
| "ping_all io (ws # rest) alive =
     (if \<not> alive ws
      then (case ping_all io rest alive of (alive', effs) \<Rightarrow> (alive', Terminate ws # effs))
      else (case ping_all io rest (alive(ws := False)) of
              (alive', effs) \<Rightarrow>
                (alive', Ping ws # (if ping_throws io ws then [Terminate ws] else []) @ effs)))"

definition ping_interval :: "outcomes \<Rightarrow> server \<Rightarrow> server \<times> effect list" where
  "ping_interval io s =
     (case ping_all io (clients s) (isAlive s) of (alive', effs) \<Rightarrow> (s\<lparr>isAlive := alive'\<rparr>, effs))"

text \<open>One event of the process. The library adds an accepted socket to \<open>wss.clients\<close>
  before the \<open>connection\<close> callback and removes it when the socket closes; listeners
  only run for sockets that are open.\<close>

definition step :: "outcomes \<Rightarrow> event \<Rightarrow> server \<Rightarrow> server \<times> effect list \<times> bool" where
  "step io e s =
     (case e of
        Connection ws hdr \<Rightarrow>
          if ws \<in> set (clients s) then (s, [], False)
          else on_connection io ws hdr (s\<lparr>clients := clients s @ [ws]\<rparr>)
      | Message ws m \<Rightarrow>
          if ws \<in> set (clients s)
          then (case on_message io (isPublisher s ws) m s of (s', effs) \<Rightarrow> (s', effs, False))
          else (s, [], False)
      | Pong ws \<Rightarrow>
          if ws \<in> set (clients s) then (on_pong ws s, [], False) else (s, [], False)
      | Closed ws \<Rightarrow>
          if ws \<in> set (clients s)
          then (on_close ws (isPublisher s ws) (s\<lparr>clients := remove1 ws (clients s)\<rparr>), [], False)
          else (s, [], False)
      | Tick \<Rightarrow> (case ping_interval io s of (s', effs) \<Rightarrow> (s', effs, False)))"

subsection \<open>\<open>part_000\<close>: the first send to a subscriber is guarded\<close>



subsection \<open>\<open>part_002\<close>: roles by registration frame\<close>

text \<open>\<open>data.key\<close> on a parsed value other than \<open>null\<close>: \<open>None\<close> is \<open>undefined\<close>. Only an
  object has the properties \<open>type\<close>, \<open>role\<close> and \<open>C\<close>.\<close>

fun property :: "json \<Rightarrow> string \<Rightarrow> json option" where
  "property (JObj kvs) k = map_of kvs k"
| "property data k = None"

definition disconnect_msg :: json where
  "disconnect_msg = JObj [(''type'', JStr ''disconnect''), (''reason'', JStr ''new-publisher'')]"

definition registered_msg :: "string \<Rightarrow> json" where
  "registered_msg role = JObj [(''type'', JStr ''registered''), (''role'', JStr role)]"

text \<open>\<open>{ type: "data", ...data }\<close>: the properties of \<open>data\<close> are written over the
  literal's, each new key after the ones present. (JavaScript lists keys that are
  array indices before the others; the list below keeps insertion order for them too.
  No statement depends on the order of the keys, only on the value of each.)\<close>

definition data_envelope :: "SensorData \<Rightarrow> json" where
  "data_envelope d = JObj (fold (\<lambda>(k, v). AList.update k v) d [(''type'', JStr ''data'')])"

text \<open>\<open>handleRegistration\<close>. The third component says that a \<open>send\<close> outside a \<open>try\<close>
  threw; what follows it in the function is then not run.\<close>

definition handleRegistration :: "outcomes \<Rightarrow> conn \<Rightarrow> json option \<Rightarrow> server \<Rightarrow> server \<times> effect list \<times> bool" where
  "handleRegistration io ws role s =
     (if role = Some (JStr ''publisher'') then
        (let notify =
               (case publisher s of
                  None \<Rightarrow> []
                | Some old \<Rightarrow>
                    Log WARN ''Replacing existing publisher''
                      # Send old (Stringify disconnect_msg)
                      # (if send_throws io old then [Log ERROR ''Error notifying old publisher''] else []));
             s' = s\<lparr>isPublisher := (isPublisher s)(ws := True), publisher := Some ws\<rparr>
         in (s', notify @ [Send ws (Stringify (registered_msg ''publisher''))], send_throws io ws))
      else
        (let s' = s\<lparr>subscribers := subscribers s @ [ws]\<rparr>
         in if send_throws io ws
            then (s', [Send ws (Stringify (registered_msg ''subscriber''))], True)
            else if latestData s' \<noteq> []
            then (s',
                  [Send ws (Stringify (registered_msg ''subscriber'')),
                   Send ws (Stringify (data_envelope (latestData s')))],
                  send_throws io ws)
            else (s', [Send ws (Stringify (registered_msg ''subscriber''))], False)))"

definition broadcastToSubscribers_reg :: "outcomes \<Rightarrow> SensorData \<Rightarrow> server \<Rightarrow> server \<times> effect list" where
  "broadcastToSubscribers_reg io data s =
     (if subscribers s = [] then (s, [Log WARN ''No subscribers to broadcast to''])
      else
        (s\<lparr>subscribers := filter (readyState_OPEN io) (subscribers s)\<rparr>,
         concat (map (\<lambda>client.
                   Send client (Stringify (data_envelope data))
                     # (if send_throws io client then [Log ERROR ''Failed to send to subscriber''] else []))
                 (subscribers s))
           @ (if filter (send_throws io) (subscribers s) \<noteq> []
              then [Log WARN ''Failed to send to subscribers, cleaned up connections'']
              else [])))"

text \<open>The \<open>message\<close> listener. The inner \<open>catch\<close> answers the text \<open>ping\<close>, which is not
  JSON; any other exception of the inner \<open>try\<close> (the parse, \<open>data.type\<close> on \<open>null\<close>, a
  \<open>send\<close> of \<open>handleRegistration\<close>) is logged there.\<close>

definition on_message_reg :: "outcomes \<Rightarrow> conn \<Rightarrow> frame \<Rightarrow> server \<Rightarrow> server \<times> effect list" where
  "on_message_reg io extWs message s =
     (case message of
        Unparseable msgStr \<Rightarrow>
          if msgStr = ''ping''
          then (s, Send extWs (Text ''pong'')
                     # (if send_throws io extWs then [Log ERROR ''Error handling message''] else []))
          else (s, [Log ERROR ''Failed to parse message as JSON''])
      | Parsed data \<Rightarrow>
          (case data of
             JNull \<Rightarrow> (s, [Log ERROR ''Failed to parse message as JSON''])
           | _ \<Rightarrow>
               if property data ''type'' = Some (JStr ''register'') then
                 (case handleRegistration io extWs (property data ''role'') s of
                    (s', effs, threw) \<Rightarrow>
                      (s', effs @ (if threw then [Log ERROR ''Failed to parse message as JSON''] else [])))
               else if isPublisher s extWs \<and> property data ''C'' \<noteq> None then
                 (case data of
                    JObj kvs \<Rightarrow> broadcastToSubscribers_reg io kvs (s\<lparr>latestData := kvs\<rparr>)
                  | _ \<Rightarrow> (s, []))
               else (s, [Log WARN ''Unhandled message type''])))"

definition on_close_reg :: "conn \<Rightarrow> server \<Rightarrow> server" where
  "on_close_reg extWs s =
     (if isPublisher s extWs \<and> publisher s = Some extWs then s\<lparr>publisher := None\<rparr>
      else s\<lparr>subscribers := filter (\<lambda>sub. sub \<noteq> extWs) (subscribers s)\<rparr>)"

text \<open>The \<open>connection\<close> callback: the listeners are registered, then \<open>send("connected")\<close>.\<close>

definition on_connection_reg :: "outcomes \<Rightarrow> conn \<Rightarrow> server \<Rightarrow> server \<times> effect list \<times> bool" where
  "on_connection_reg io extWs s =
     (s\<lparr>isAlive := (isAlive s)(extWs := True), isPublisher := (isPublisher s)(extWs := False)\<rparr>,
      [Send extWs (Text ''connected'')],
      send_throws io extWs)"

fun ping_all_reg :: "outcomes \<Rightarrow> conn list \<Rightarrow> (conn \<Rightarrow> bool) \<Rightarrow> (conn \<Rightarrow> bool) \<times> effect list" where
  "ping_all_reg io [] alive = (alive, [])"
| "ping_all_reg io (ws # rest) alive =
     (if \<not> alive ws
      then (case ping_all_reg io rest alive of
              (alive', effs) \<Rightarrow>
                (alive', Log WARN ''Terminating inactive connection'' # Terminate ws # effs))
      else (case ping_all_reg io rest (alive(ws := False)) of
              (alive', effs) \<Rightarrow>
                (alive',
                 Send ws (Text ''ping'')
                   # (if send_throws io ws then [Log ERROR ''Failed to ping client'', Terminate ws] else [])
                   @ effs)))"

definition ping_interval_reg :: "outcomes \<Rightarrow> server \<Rightarrow> server \<times> effect list" where
  "ping_interval_reg io s =
     (case ping_all_reg io (clients s) (isAlive s) of
        (alive', effs) \<Rightarrow> (s\<lparr>isAlive := alive'\<rparr>, effs))"

text \<open>One event of the process. The header flag of \<open>Connection\<close> is not read, and no
  listener is registered for \<open>pong\<close>.\<close>

definition step_reg :: "outcomes \<Rightarrow> event \<Rightarrow> server \<Rightarrow> server \<times> effect list \<times> bool" where
  "step_reg io e s =
     (case e of
        Connection ws hdr \<Rightarrow>
          if ws \<in> set (clients s) then (s, [], False)
          else on_connection_reg io ws (s\<lparr>clients := clients s @ [ws]\<rparr>)
      | Message ws m \<Rightarrow>
          if ws \<in> set (clients s)
          then (case on_message_reg io ws m s of (s', effs) \<Rightarrow> (s', effs, False))
          else (s, [], False)
      | Pong ws \<Rightarrow> (s, [], False)
      | Closed ws \<Rightarrow>
          if ws \<in> set (clients s)
          then (on_close_reg ws (s\<lparr>clients := remove1 ws (clients s)\<rparr>), [], False)
          else (s, [], False)
      | Tick \<Rightarrow> (case ping_interval_reg io s of (s', effs) \<Rightarrow> (s', effs, False)))"

subsection \<open>Runs\<close>

text \<open>A run of the process from a state: each event comes with the outcomes of the
  library calls made while it is handled. An exception that leaves a callback ends the
  process.\<close>

fun run_with :: "(outcomes \<Rightarrow> event \<Rightarrow> server \<Rightarrow> server \<times> effect list \<times> bool) \<Rightarrow> server \<Rightarrow> (outcomes \<times> event) list \<Rightarrow> server" where
  "run_with f s [] = s"
| "run_with f s ((io, e) # rest) =
     (case f io e s of (s', effs, uncaught) \<Rightarrow> if uncaught then s' else run_with f s' rest)"

text \<open>The sample an event relays, if it is a frame of an open publisher socket that
  carries \<open>C\<close> (and, in \<open>part_002\<close>, is not a registration frame).\<close>

definition sample_of :: "server \<Rightarrow> event \<Rightarrow> SensorData option" where
  "sample_of s e =
     (case e of
        Message ws (Parsed (JObj kvs)) \<Rightarrow>
          if ws \<in> set (clients s) \<and> isPublisher s ws \<and> ''C'' \<in> set (map fst kvs)
          then Some kvs else None
      | _ \<Rightarrow> None)"

definition sample_of_reg :: "server \<Rightarrow> event \<Rightarrow> SensorData option" where
  "sample_of_reg s e =
     (case e of
        Message ws (Parsed (JObj kvs)) \<Rightarrow>
          if ws \<in> set (clients s) \<and> map_of kvs ''type'' \<noteq> Some (JStr ''register'')
             \<and> isPublisher s ws \<and> map_of kvs ''C'' \<noteq> None
          then Some kvs else None
      | _ \<Rightarrow> None)"

text \<open>The samples relayed during a run, oldest first.\<close>

fun relayed_with :: "(outcomes \<Rightarrow> event \<Rightarrow> server \<Rightarrow> server \<times> effect list \<times> bool) \<Rightarrow> (server \<Rightarrow> event \<Rightarrow> SensorData option) \<Rightarrow> server \<Rightarrow> (outcomes \<times> event) list \<Rightarrow> SensorData list" where
  "relayed_with f sample s [] = []"
| "relayed_with f sample s ((io, e) # rest) =
     (case f io e s of
        (s', effs, uncaught) \<Rightarrow>
          (case sample s e of None \<Rightarrow> [] | Some d \<Rightarrow> [d])
            @ (if uncaught then [] else relayed_with f sample s' rest))"

subsection \<open>Notions used in the statements\<close>

text \<open>The \<open>send\<close> calls among the calls a callback made, and those of them that did not
  throw.\<close>

fun sends :: "effect list \<Rightarrow> (conn \<times> payload) list" where
  "sends [] = []"
| "sends (Send c m # effs) = (c, m) # sends effs"
| "sends (e # effs) = sends effs"


text \<open>The sockets on which \<open>close(1000, 'New publisher connected')\<close> was called.\<close>

fun superseded_closed :: "effect list \<Rightarrow> conn list" where
  "superseded_closed [] = []"
| "superseded_closed (Close p code reason # effs) =
     (if code = 1000 \<and> reason = ''New publisher connected'' then p # superseded_closed effs
      else superseded_closed effs)"
| "superseded_closed (e # effs) = superseded_closed effs"

text \<open>A sequence of calls of one callback, each with its own outcomes.\<close>

fun run_calls :: "('a \<Rightarrow> server \<Rightarrow> server \<times> effect list) \<Rightarrow> 'a list \<Rightarrow> server \<Rightarrow> server \<times> effect list" where
  "run_calls f [] s = (s, [])"
| "run_calls f (x # xs) s =
     (case f x s of (s1, e1) \<Rightarrow> (case run_calls f xs s1 of (s2, e2) \<Rightarrow> (s2, e1 @ e2)))"

text \<open>A producer registration in \<open>src/server.ts\<close>: the connection of a socket whose
  header names the publisher. In \<open>part_002\<close> it is the frame
  \<open>{type: "register", role: "publisher"}\<close>.\<close>

definition connect_publisher :: "outcomes \<times> conn \<Rightarrow> server \<Rightarrow> server \<times> effect list" where
  "connect_publisher = (\<lambda>(io, c) s. case on_connection io c True s of (s', effs, uncaught) \<Rightarrow> (s', effs))"

definition register_frame :: "string \<Rightarrow> frame" where
  "register_frame role = Parsed (JObj [(''type'', JStr ''register''), (''role'', JStr role)])"

definition slot :: "conn option \<Rightarrow> conn list" where
  "slot p = (case p of None \<Rightarrow> [] | Some c \<Rightarrow> [c])"

text \<open>A parsed value that carries the conductivity field.\<close>

fun carries_C :: "json \<Rightarrow> bool" where
  "carries_C (JObj kvs) = (''C'' \<in> fst ` set kvs)"
| "carries_C data = False"

text \<open>The shape of the registry that \<open>src/server.ts\<close> keeps: the open sockets and the
  subscribers are without repetition, subscribers are open sockets that did not connect
  as publisher, and the producer is an open socket that did.\<close>

definition registry_ok :: "server \<Rightarrow> bool" where
  "registry_ok s \<longleftrightarrow>
     distinct (clients s) \<and> distinct (subscribers s)
     \<and> set (subscribers s) \<subseteq> set (clients s)
     \<and> (\<forall>c \<in> set (subscribers s). \<not> isPublisher s c)
     \<and> (\<forall>p. publisher s = Some p \<longrightarrow> p \<in> set (clients s) \<and> isPublisher s p)"

text \<open>Concrete inputs.\<close>

definition all_fine :: outcomes where
  "all_fine = \<lparr>send_throws = (\<lambda>c. False), close_throws = (\<lambda>c. False),
     ping_throws = (\<lambda>c. False), readyState_OPEN = (\<lambda>c. True)\<rparr>"

definition send_fails_for :: "conn \<Rightarrow> outcomes" where
  "send_fails_for x = all_fine\<lparr>send_throws := (\<lambda>c. c = x)\<rparr>"

text \<open>The socket is not open, and \<open>send\<close> throws on it.\<close>

definition closed_socket :: "conn \<Rightarrow> outcomes" where
  "closed_socket x = all_fine\<lparr>send_throws := (\<lambda>c. c = x), readyState_OPEN := (\<lambda>c. c \<noteq> x)\<rparr>"

definition sample_450 :: SensorData where
  "sample_450 = [(''C'', JNum 450)]"

definition sample_PH :: SensorData where
  "sample_PH = [(''PH'', JNum (71 / 10))]"

definition events_450 :: "(outcomes \<times> event) list" where
  "events_450 =
     [(all_fine, Connection 1 True),
      (all_fine, Message 1 (Parsed (JObj sample_450))),
      (all_fine, Message 1 (Parsed (JObj sample_PH))),
      (all_fine, Tick)]"

definition events_450_reg :: "(outcomes \<times> event) list" where
  "events_450_reg =
     [(all_fine, Connection 1 False),
      (all_fine, Message 1 (register_frame ''publisher'')),
      (all_fine, Message 1 (Parsed (JObj sample_450))),
      (all_fine, Message 1 (Parsed (JObj sample_PH))),
      (all_fine, Tick)]"

text \<open>Socket 1 registers as publisher, socket 2 registers as publisher after it, and
  socket 3 registers as subscriber.\<close>

definition superseded_reg :: "(outcomes \<times> event) list" where
  "superseded_reg =
     [(all_fine, Connection 1 False),
      (all_fine, Message 1 (register_frame ''publisher'')),
      (all_fine, Connection 2 False),
      (all_fine, Message 2 (register_frame ''publisher'')),
      (all_fine, Connection 3 False),
      (all_fine, Message 3 (register_frame ''subscriber''))]"

definition three_consumers :: server where
  "three_consumers = server0\<lparr>subscribers := [1, 2, 3], clients := [1, 2, 3]\<rparr>"

text \<open>A registration frame that also carries a conductivity reading.\<close>

definition register_with_C :: frame where
  "register_with_C = Parsed (JObj [(''type'', JStr ''register''), (''C'', JNum 450)])"

section \<open>Properties\<close>

subsection \<open>Auxiliary facts\<close>

lemma sends_append: "sends (xs @ ys) = sends xs @ sends ys"
  by (induction xs rule: sends.induct) simp_all

lemma superseded_closed_append:
  "superseded_closed (xs @ ys) = superseded_closed xs @ superseded_closed ys"
  by (induction xs rule: superseded_closed.induct) simp_all

lemmas concrete_defs =
  all_fine_def send_fails_for_def closed_socket_def sample_450_def sample_PH_def
  events_450_def events_450_reg_def superseded_reg_def three_consumers_def server0_def
  register_frame_def
  register_with_C_def

lemmas callback_defs =
  step_def on_connection_def on_message_def on_pong_def on_close_def ping_interval_def
  broadcastToSubscribers_def close_previous_def

lemmas callback_reg_defs =
  step_reg_def on_connection_reg_def on_message_reg_def on_close_reg_def ping_interval_reg_def
  broadcastToSubscribers_reg_def handleRegistration_def disconnect_msg_def registered_msg_def
  data_envelope_def

subsection \<open>Producer supersession\<close>

lemma connect_publisher_step:
  "connect_publisher (io, c) s = (s', effs) \<Longrightarrow>
     publisher s' = Some c \<and> superseded_closed effs = slot (publisher s)"
  by (auto simp: connect_publisher_def on_connection_def Let_def close_previous_def slot_def
        split: option.splits)

text \<open>In \<open>src/server.ts\<close>, after a sequence of producer registrations the last one holds
  the slot, and \<open>close\<close> was called, in this order, on the producer of the start and on
  every socket registered before the last, whatever calls threw.\<close>

lemma supersession_closes_previous:
  "regs \<noteq> [] \<Longrightarrow>
     publisher (fst (run_calls connect_publisher regs s)) = Some (snd (last regs))
     \<and> superseded_closed (snd (run_calls connect_publisher regs s))
         = slot (publisher s) @ butlast (map snd regs)"
proof (induction regs arbitrary: s)
  case Nil
  then show ?case by simp
next
  case (Cons r regs)
  obtain io c where r: "r = (io, c)" by (cases r)
  obtain s1 e1 where 1: "connect_publisher (io, c) s = (s1, e1)"
    by (cases "connect_publisher (io, c) s")
  note h = connect_publisher_step [OF 1]
  show ?case
  proof (cases "regs = []")
    case True
    with h r 1 show ?thesis by simp
  next
    case False
    from Cons.IH [OF False, of s1] h r 1 False show ?thesis
      by (simp add: split_beta superseded_closed_append slot_def)
  qed
qed

text \<open>
  Claim C1 says that every previously installed producer was closed with a superseded
  reason before the new one was installed. \<open>src/server.ts\<close> does so
  (\<open>supersession_closes_previous\<close>). In \<open>part_002\<close>, whose comment reads "If there's an
  existing publisher, disconnect it", the registration of socket 2 over producer 1
  calls no \<open>close\<close>: besides the warning it only sends the frame
  \<open>{type: "disconnect", reason: "new-publisher"}\<close> to socket 1 and the acknowledgement to
  socket 2. Socket 1 stays open with its flag \<open>isPublisher\<close> set, and a sample it sends
  afterwards is still stored and sent to the subscriber 3, although socket 2 holds the
  slot.
\<close>

theorem supersession_sends_no_close_reg:
  "fst (snd (step_reg all_fine (Message 2 (register_frame ''publisher''))
      (run_with step_reg server0
        [(all_fine, Connection 1 False),
         (all_fine, Message 1 (register_frame ''publisher'')),
         (all_fine, Connection 2 False)])))
     = [Log WARN ''Replacing existing publisher'',
        Send 1 (Stringify disconnect_msg),
        Send 2 (Stringify (registered_msg ''publisher''))]
   \<and> publisher (run_with step_reg server0 superseded_reg) = Some 2
   \<and> isPublisher (run_with step_reg server0 superseded_reg) 1
   \<and> subscribers (run_with step_reg server0 superseded_reg) = [3]
   \<and> latestData (run_with step_reg server0 superseded_reg) = []
   \<and> latestData (fst (step_reg all_fine (Message 1 (Parsed (JObj sample_450)))
        (run_with step_reg server0 superseded_reg))) = sample_450
   \<and> fst (snd (step_reg all_fine (Message 1 (Parsed (JObj sample_450)))
        (run_with step_reg server0 superseded_reg)))
     = [Send 3 (Stringify (data_envelope sample_450))]
   \<and> fst (snd (step all_fine (Connection 2 True)
        (run_with step server0 [(all_fine, Connection 1 True)])))
     = [Close 1 1000 ''New publisher connected'']"
  by (simp add: callback_reg_defs callback_defs concrete_defs Let_def)

subsection \<open>Fan-out\<close>

lemma fold_remove1_filter:
  "\<forall>x \<in> set pre. \<not> P x \<Longrightarrow>
   fold remove1 (filter P cs) (pre @ cs) = pre @ filter (\<lambda>x. \<not> P x) cs"
proof (induction cs arbitrary: pre)
  case Nil
  then show ?case by simp
next
  case (Cons c cs)
  show ?case
  proof (cases "P c")
    case True
    with Cons.prems have "c \<notin> set pre" by blast
    then have "remove1 c (pre @ c # cs) = pre @ cs" by (simp add: remove1_append)
    with True Cons.IH [OF Cons.prems] show ?thesis by simp
  next
    case False
    with Cons.prems have "\<forall>x \<in> set (pre @ [c]). \<not> P x" by simp
    from Cons.IH [OF this] False show ?thesis by simp
  qed
qed

lemma fan_out_subs:
  "fst (fan_out io m cs subs) = fold remove1 (filter (send_throws io) cs) subs"
  by (induction cs arbitrary: subs) (simp_all add: split_beta)

lemma fan_out_sends:
  "sends (snd (fan_out io m cs subs)) = map (\<lambda>c. (c, m)) cs"
  by (induction cs arbitrary: subs) (simp_all add: split_beta)

lemma fan_out_self:
  "fst (fan_out io m subs subs) = filter (\<lambda>c. \<not> send_throws io c) subs"
  using fold_remove1_filter [of "[]" "send_throws io" subs] by (simp add: fan_out_subs)

lemma broadcast_subscribers:
  "subscribers (fst (broadcastToSubscribers io d s))
     = filter (\<lambda>c. \<not> send_throws io c) (subscribers s)"
  by (simp add: broadcastToSubscribers_def Let_def split_beta fan_out_self)

lemma broadcast_sends:
  "sends (snd (broadcastToSubscribers io d s)) = map (\<lambda>c. (c, Stringify (JObj d))) (subscribers s)"
  using fan_out_sends [of io "Stringify (JObj d)" "subscribers s" "subscribers s"]
  by (simp add: broadcastToSubscribers_def Let_def split_beta)

lemma broadcast_reg_sends:
  "sends (snd (broadcastToSubscribers_reg io d s))
     = map (\<lambda>c. (c, Stringify (data_envelope d))) (subscribers s)"
proof -
  have "sends (concat (map (\<lambda>client. Send client m # (if send_throws io client then [Log ERROR t] else [])) xs))
        = map (\<lambda>c. (c, m)) xs" for m t xs
    by (induction xs) simp_all
  then show ?thesis
    by (simp add: broadcastToSubscribers_reg_def sends_append)
qed






subsection \<open>The registry of \<open>src/server.ts\<close>\<close>

lemma registry_ok_server0: "registry_ok server0"
  by (simp add: registry_ok_def server0_def)

lemma registry_ok_broadcast:
  "registry_ok s \<Longrightarrow> registry_ok (fst (broadcastToSubscribers io d s))"
proof -
  assume ok: "registry_ok s"
  have clients: "clients (fst (broadcastToSubscribers io d s)) = clients s"
    and pub: "publisher (fst (broadcastToSubscribers io d s)) = publisher s"
    and role: "isPublisher (fst (broadcastToSubscribers io d s)) = isPublisher s"
    by (simp_all add: broadcastToSubscribers_def Let_def split_beta)
  from ok show ?thesis
    by (auto simp: registry_ok_def clients pub role broadcast_subscribers)
qed

lemma registry_ok_on_message:
  "registry_ok s \<Longrightarrow> registry_ok (fst (on_message io isPub m s))"
  by (auto simp: on_message_def registry_ok_broadcast split: frame.splits json.splits)

lemma registry_ok_step:
  assumes ok: "registry_ok s"
  shows "registry_ok (fst (step io e s))"
proof (cases e)
  case (Connection ws hdr)
  from ok show ?thesis
    by (auto simp: Connection step_def on_connection_def Let_def registry_ok_def)
next
  case (Message ws m)
  from ok registry_ok_on_message [OF ok, of io "isPublisher s ws" m] show ?thesis
    by (simp add: Message step_def split_beta)
next
  case (Pong ws)
  from ok show ?thesis
    by (simp add: Pong step_def on_pong_def registry_ok_def)
next
  case (Closed ws)
  from ok show ?thesis
    by (auto simp: Closed step_def on_close_def registry_ok_def dest: notin_set_remove1)
next
  case Tick
  from ok show ?thesis
    by (simp add: Tick step_def ping_interval_def split_beta registry_ok_def)
qed

lemma run_with_invariant:
  assumes st: "\<And>io e s. P s \<Longrightarrow> P (fst (f io e s))"
  shows "P s \<Longrightarrow> P (run_with f s evs)"
proof (induction evs arbitrary: s)
  case Nil
  then show ?case by simp
next
  case (Cons x evs)
  obtain io e where x: "x = (io, e)" by (cases x)
  obtain s' effs u where f: "f io e s = (s', effs, u)" by (cases "f io e s")
  from st [OF Cons.prems, of io e] f have "P s'" by simp
  with Cons.IH [of s'] show ?case by (simp add: x f)
qed

lemma registry_ok_run: "registry_ok (run_with step server0 evs)"
  using run_with_invariant [of registry_ok step server0 evs] registry_ok_step registry_ok_server0
  by blast

text \<open>In \<open>src/server.ts\<close> no socket is both the producer and a subscriber, and the
  \<open>close\<close> event of a socket takes it out of the registry.\<close>

lemma roles_exclusive:
  "publisher (run_with step server0 evs) = Some c \<Longrightarrow> c \<notin> set (subscribers (run_with step server0 evs))"
  using registry_ok_run [of evs] by (auto simp: registry_ok_def)

lemma closed_socket_leaves_registry:
  "s = run_with step server0 evs \<Longrightarrow> c \<in> set (clients s) \<Longrightarrow>
   publisher (fst (step io (Closed c) s)) \<noteq> Some c
   \<and> c \<notin> set (subscribers (fst (step io (Closed c) s)))"
  using registry_ok_run [of evs]
  by (auto simp: registry_ok_def step_def on_close_def)

subsection \<open>The liveness sweep\<close>

text \<open>The sweep of \<open>src/server.ts\<close> terminates exactly the sockets whose flag is
  cleared or whose \<open>ping\<close> throws.\<close>

lemma ping_all_terminates:
  "distinct cs \<Longrightarrow>
   Terminate c \<in> set (snd (ping_all io cs alive))
     \<longleftrightarrow> c \<in> set cs \<and> (\<not> alive c \<or> ping_throws io c)"
proof (induction cs arbitrary: alive)
  case Nil
  show ?case by simp
next
  case (Cons a cs)
  from Cons.prems have d: "distinct cs" and a: "a \<notin> set cs" by simp_all
  show ?case
  proof (cases "alive a")
    case True
    have eq: "Terminate c \<in> set (snd (ping_all io (a # cs) alive))
        \<longleftrightarrow> (c = a \<and> ping_throws io a)
            \<or> Terminate c \<in> set (snd (ping_all io cs (alive(a := False))))"
      using True by (auto simp: split_beta)
    have ih: "Terminate c \<in> set (snd (ping_all io cs (alive(a := False))))
        \<longleftrightarrow> c \<in> set cs \<and> (\<not> (alive(a := False)) c \<or> ping_throws io c)"
      by (rule Cons.IH [OF d])
    have "c \<in> set cs \<Longrightarrow> (alive(a := False)) c = alive c"
      using a by auto
    with ih have "Terminate c \<in> set (snd (ping_all io cs (alive(a := False))))
        \<longleftrightarrow> c \<in> set cs \<and> (\<not> alive c \<or> ping_throws io c)"
      by blast
    with eq True a show ?thesis by auto
  next
    case False
    have eq: "Terminate c \<in> set (snd (ping_all io (a # cs) alive))
        \<longleftrightarrow> c = a \<or> Terminate c \<in> set (snd (ping_all io cs alive))"
      using False by (auto simp: split_beta)
    with Cons.IH [OF d, of alive] False show ?thesis by auto
  qed
qed

lemma sweep_spares_answering_socket:
  "distinct (clients s) \<Longrightarrow> c \<in> set (clients s) \<Longrightarrow> \<not> ping_throws io c \<Longrightarrow>
   Terminate c \<notin> set (fst (snd (step io Tick (fst (step io' (Pong c) s)))))"
  by (simp add: step_def on_pong_def ping_interval_def split_beta ping_all_terminates)

lemma ping_all_reg_alive:
  "fst (ping_all_reg io cs alive) c \<Longrightarrow> alive c"
proof (induction cs arbitrary: alive)
  case Nil
  then show ?case by simp
next
  case (Cons a cs)
  show ?case
  proof (cases "alive a")
    case True
    with Cons.prems have "fst (ping_all_reg io cs (alive(a := False))) c"
      by (simp add: split_beta)
    from Cons.IH [OF this] show ?thesis by (simp split: if_splits)
  next
    case False
    with Cons.prems have "fst (ping_all_reg io cs alive) c"
      by (simp add: split_beta)
    from Cons.IH [OF this] show ?thesis .
  qed
qed

lemma ping_all_reg_cleared:
  "c \<in> set cs \<Longrightarrow> \<not> fst (ping_all_reg io cs alive) c"
proof (induction cs arbitrary: alive)
  case Nil
  then show ?case by simp
next
  case (Cons a cs)
  show ?case
  proof (cases "c = a")
    case True
    show ?thesis
      using ping_all_reg_alive [of io cs alive c] ping_all_reg_alive [of io cs "alive(a := False)" c]
      by (auto simp: True split_beta)
  next
    case False
    with Cons show ?thesis by (simp add: split_beta)
  qed
qed

lemma ping_all_reg_terminates:
  "c \<in> set cs \<Longrightarrow> \<not> alive c \<Longrightarrow> Terminate c \<in> set (snd (ping_all_reg io cs alive))"
  by (induction cs arbitrary: alive) (auto simp: split_beta)

text \<open>In \<open>part_002\<close> only the acceptance of a socket sets its flag.\<close>

lemma isAlive_only_set_on_connection_reg:
  "isAlive (fst (step_reg io e s)) c \<Longrightarrow> isAlive s c \<or> (\<exists>hdr. e = Connection c hdr)"
  using ping_all_reg_alive [of io "clients s" "isAlive s" c]
  by (cases e)
    (auto simp: step_reg_def on_connection_reg_def on_message_reg_def handleRegistration_def
      broadcastToSubscribers_reg_def on_close_reg_def ping_interval_reg_def Let_def split_beta
      split: if_splits frame.splits json.splits)

text \<open>So the sweep after the next terminates every socket that is still open, whatever
  it sent in between.\<close>

lemma second_sweep_terminates_reg:
  "c \<in> set (clients s) \<Longrightarrow>
   Terminate c \<in> set (fst (snd (step_reg io2 Tick
      (fst (step_reg io1 (Message c m) (fst (step_reg io0 Tick s)))))))"
proof -
  assume c: "c \<in> set (clients s)"
  let ?s1 = "fst (step_reg io0 Tick s)"
  let ?s2 = "fst (step_reg io1 (Message c m) ?s1)"
  have c1: "clients ?s1 = clients s"
    by (simp add: step_reg_def ping_interval_reg_def split_beta)
  have a1: "\<not> isAlive ?s1 c"
    using ping_all_reg_cleared [OF c, of io0 "isAlive s"]
    by (simp add: step_reg_def ping_interval_reg_def split_beta)
  have c2: "clients ?s2 = clients ?s1"
    by (auto simp: step_reg_def on_message_reg_def handleRegistration_def
        broadcastToSubscribers_reg_def Let_def split_beta split: frame.splits json.splits)
  have a2: "\<not> isAlive ?s2 c"
    using a1 isAlive_only_set_on_connection_reg [of io1 "Message c m" ?s1 c] by auto
  from ping_all_reg_terminates [of c "clients ?s2" "isAlive ?s2" io2] c c1 c2 a2
  show ?thesis
    by (simp add: step_reg_def [of io2 Tick] ping_interval_reg_def split_beta)
qed

text \<open>
  Claim C3 says that a connection whose flag is still cleared at a sweep is terminated
  and removed from the registry, and that a connection that answers every probe is
  never evicted by the sweep. \<open>src/server.ts\<close> does both (\<open>ping_all_terminates\<close>,
  \<open>closed_socket_leaves_registry\<close>, \<open>sweep_spares_answering_socket\<close>). In \<open>part_002\<close>
  nothing sets \<open>isAlive\<close> back to true after the sweep cleared it: there is no \<open>pong\<close>
  listener, and the \<open>message\<close> listener does not touch the flag. A socket that answers
  the \<open>ping\<close> text of the first sweep is terminated by the second, where
  \<open>src/server.ts\<close> pings again.
\<close>

theorem answering_socket_terminated_reg:
  "fst (snd (step_reg all_fine Tick (run_with step_reg server0
      [(all_fine, Connection 1 False),
       (all_fine, Tick),
       (all_fine, Message 1 (Unparseable ''pong'')),
       (all_fine, Pong 1)]))) = [Log WARN ''Terminating inactive connection'', Terminate 1]
   \<and> fst (snd (step all_fine Tick (run_with step server0
      [(all_fine, Connection 1 False),
       (all_fine, Tick),
       (all_fine, Pong 1)]))) = [Ping 1]"
  by (simp add: callback_reg_defs callback_defs concrete_defs Let_def)

subsection \<open>The latest sample\<close>

lemma broadcast_latest: "latestData (fst (broadcastToSubscribers io d s)) = d"
  by (simp add: broadcastToSubscribers_def Let_def split_beta)

lemma broadcast_reg_latest: "latestData (fst (broadcastToSubscribers_reg io d s)) = latestData s"
  by (simp add: broadcastToSubscribers_reg_def)

lemma on_message_latest:
  "latestData (fst (on_message io isPub m s)) =
     (case m of
        Parsed (JObj kvs) \<Rightarrow> if isPub \<and> ''C'' \<in> set (map fst kvs) then kvs else latestData s
      | _ \<Rightarrow> latestData s)"
  by (simp add: on_message_def broadcast_latest split: frame.splits json.splits)

lemma handleRegistration_latest:
  "latestData (fst (handleRegistration io ws role s)) = latestData s"
  by (simp add: handleRegistration_def Let_def)

lemma on_message_reg_latest:
  "latestData (fst (on_message_reg io ws m s)) =
     (case m of
        Parsed (JObj kvs) \<Rightarrow>
          if map_of kvs ''type'' \<noteq> Some (JStr ''register'') \<and> isPublisher s ws
             \<and> map_of kvs ''C'' \<noteq> None
          then kvs else latestData s
      | _ \<Rightarrow> latestData s)"
  by (auto simp: on_message_reg_def broadcast_reg_latest handleRegistration_latest split_beta
        split: frame.splits json.splits)

lemma step_latest:
  "latestData (fst (step io e s)) = (case sample_of s e of None \<Rightarrow> latestData s | Some d \<Rightarrow> d)"
  by (simp add: step_def sample_of_def on_connection_def Let_def on_pong_def on_close_def
        ping_interval_def split_beta on_message_latest
        split: event.splits frame.splits json.splits)

lemma step_reg_latest:
  "latestData (fst (step_reg io e s)) =
     (case sample_of_reg s e of None \<Rightarrow> latestData s | Some d \<Rightarrow> d)"
  by (auto simp: step_reg_def sample_of_reg_def on_connection_reg_def on_close_reg_def
        ping_interval_reg_def split_beta on_message_reg_latest
        split: event.splits frame.splits json.splits)

lemma sample_of_nonempty: "sample_of s e = Some d \<Longrightarrow> d \<noteq> []"
  by (auto simp: sample_of_def split: event.splits frame.splits json.splits if_splits)

lemma sample_of_reg_nonempty: "sample_of_reg s e = Some d \<Longrightarrow> d \<noteq> []"
  by (auto simp: sample_of_reg_def split: event.splits frame.splits json.splits if_splits)

text \<open>Along a run, \<open>latestData\<close> is the last sample relayed, or what it was at the start.\<close>

lemma run_latest:
  assumes st: "\<And>io e s. latestData (fst (f io e s)) =
      (case sample s e of None \<Rightarrow> latestData s | Some d \<Rightarrow> d)"
  shows "latestData (run_with f s evs) =
     (if relayed_with f sample s evs = [] then latestData s
      else last (relayed_with f sample s evs))"
proof (induction evs arbitrary: s)
  case Nil
  show ?case by simp
next
  case (Cons x evs)
  obtain io e where x: "x = (io, e)" by (cases x)
  obtain s' effs u where f: "f io e s = (s', effs, u)" by (cases "f io e s")
  from st [of io e s] f
  have l: "latestData s' = (case sample s e of None \<Rightarrow> latestData s | Some d \<Rightarrow> d)"
    by simp
  show ?case
    using Cons.IH [of s'] l by (simp add: x f split: option.splits)
qed

lemma relayed_nonempty:
  "\<forall>s e d. sample s e = Some d \<longrightarrow> d \<noteq> [] \<Longrightarrow>
   d \<in> set (relayed_with f sample s evs) \<Longrightarrow> d \<noteq> []"
proof (induction evs arbitrary: s)
  case Nil
  then show ?case by simp
next
  case (Cons x evs)
  obtain io e where x: "x = (io, e)" by (cases x)
  obtain s' effs u where f: "f io e s = (s', effs, u)" by (cases "f io e s")
  from Cons.prems(2)
  consider "sample s e = Some d" | "d \<in> set (relayed_with f sample s' evs)"
    by (cases "sample s e") (auto simp: x f split: if_splits)
  then show ?case
  proof cases
    case 1
    with Cons.prems(1) show ?thesis by blast
  next
    case 2
    with Cons.IH [OF Cons.prems(1)] show ?thesis .
  qed
qed

lemma last_relayed_nonempty:
  "\<forall>s e d. sample s e = Some d \<longrightarrow> d \<noteq> [] \<Longrightarrow>
   relayed_with f sample s evs \<noteq> [] \<Longrightarrow> last (relayed_with f sample s evs) \<noteq> []"
  using relayed_nonempty last_in_set by blast

lemma envelope_fields:
  "distinct (map fst d) \<Longrightarrow>
   map_of (fold (\<lambda>(k, v). AList.update k v) d base) = map_of base ++ map_of d"
proof (induction d arbitrary: base)
  case Nil
  show ?case by simp
next
  case (Cons p d)
  obtain k v where p: "p = (k, v)" by (cases p)
  from Cons.prems p have k: "k \<notin> dom (map_of d)" by (simp add: dom_map_of_conv_image_fst)
  from Cons.prems have "distinct (map fst d)" by simp
  from Cons.IH [OF this, of "AList.update k v base"]
  have "map_of (fold (\<lambda>(k, v). AList.update k v) (p # d) base)
          = map_of (AList.update k v base) ++ map_of d"
    by (simp add: p)
  also have "\<dots> = (map_of base)(k \<mapsto> v) ++ map_of d"
    by (simp only: AList.update_conv')
  also from k have "\<dots> = map_of base ++ map_of (p # d)"
    by (auto simp: p map_add_def fun_eq_iff domIff split: option.splits)
  finally show ?case .
qed

lemma envelope_property:
  "distinct (map fst d) \<Longrightarrow> k \<in> fst ` set d \<Longrightarrow> property (data_envelope d) k = map_of d k"
  by (auto simp: data_envelope_def envelope_fields map_add_def split: option.splits
        dest: weak_map_of_SomeI)

text \<open>
  Claim C4. Along every run from the initial state, \<open>latestData\<close> is the last sample
  relayed, and it is non-empty exactly when a sample has been relayed. A consumer that
  registers while \<open>latestData\<close> is non-empty is appended to the subscribers and is sent
  \<open>latestData\<close> in the same callback: in \<open>src/server.ts\<close> as \<open>JSON.stringify(latestData)\<close>
  on connection; in \<open>part_002\<close>, after the acknowledgement of the registration (when
  the \<open>send\<close> of the socket does not throw), as the object \<open>{type: "data", ...latestData}\<close>, in which every field of the sample has the
  sample's value. So a consumer that registers after \<open>{C: 450}\<close> was relayed, no other
  sample having arrived since, receives \<open>C = 450\<close> at once.
\<close>

theorem late_join_replay:
  "latestData (run_with step server0 evs)
     = (if relayed_with step sample_of server0 evs = [] then []
        else last (relayed_with step sample_of server0 evs))
   \<and> (latestData (run_with step server0 evs) \<noteq> [] \<longleftrightarrow> relayed_with step sample_of server0 evs \<noteq> [])
   \<and> (latestData s \<noteq> [] \<longrightarrow>
        sends (fst (snd (on_connection io ws False s))) = [(ws, Stringify (JObj (latestData s)))]
        \<and> subscribers (fst (on_connection io ws False s)) = subscribers s @ [ws])
   \<and> latestData (run_with step_reg server0 evs)
     = (if relayed_with step_reg sample_of_reg server0 evs = [] then []
        else last (relayed_with step_reg sample_of_reg server0 evs))
   \<and> (latestData (run_with step_reg server0 evs) \<noteq> []
        \<longleftrightarrow> relayed_with step_reg sample_of_reg server0 evs \<noteq> [])
   \<and> (latestData s \<noteq> [] \<and> role \<noteq> Some (JStr ''publisher'') \<and> \<not> send_throws io ws \<longrightarrow>
        sends (fst (snd (handleRegistration io ws role s)))
          = [(ws, Stringify (registered_msg ''subscriber'')),
             (ws, Stringify (data_envelope (latestData s)))]
        \<and> subscribers (fst (handleRegistration io ws role s)) = subscribers s @ [ws])
   \<and> (distinct (map fst d) \<and> k \<in> fst ` set d \<longrightarrow> property (data_envelope d) k = map_of d k)"
proof -
  have 1: "latestData (run_with step server0 evs)
     = (if relayed_with step sample_of server0 evs = [] then []
        else last (relayed_with step sample_of server0 evs))"
    using run_latest [of step sample_of server0 evs, OF step_latest] by (simp add: server0_def)
  have 2: "latestData (run_with step_reg server0 evs)
     = (if relayed_with step_reg sample_of_reg server0 evs = [] then []
        else last (relayed_with step_reg sample_of_reg server0 evs))"
    using run_latest [of step_reg sample_of_reg server0 evs, OF step_reg_latest]
    by (simp add: server0_def)
  have 3: "latestData (run_with step server0 evs) \<noteq> [] \<longleftrightarrow> relayed_with step sample_of server0 evs \<noteq> []"
    using last_relayed_nonempty [of sample_of step server0 evs] sample_of_nonempty
    by (auto simp: 1)
  have 4: "latestData (run_with step_reg server0 evs) \<noteq> []
        \<longleftrightarrow> relayed_with step_reg sample_of_reg server0 evs \<noteq> []"
    using last_relayed_nonempty [of sample_of_reg step_reg server0 evs] sample_of_reg_nonempty
    by (auto simp: 2)
  have 5: "latestData s \<noteq> [] \<longrightarrow>
        sends (fst (snd (on_connection io ws False s))) = [(ws, Stringify (JObj (latestData s)))]
        \<and> subscribers (fst (on_connection io ws False s)) = subscribers s @ [ws]"
    by (simp add: on_connection_def Let_def)
  have 6: "latestData s \<noteq> [] \<and> role \<noteq> Some (JStr ''publisher'') \<and> \<not> send_throws io ws \<longrightarrow>
        sends (fst (snd (handleRegistration io ws role s)))
          = [(ws, Stringify (registered_msg ''subscriber'')),
             (ws, Stringify (data_envelope (latestData s)))]
        \<and> subscribers (fst (handleRegistration io ws role s)) = subscribers s @ [ws]"
    by (simp add: handleRegistration_def Let_def)
  from 1 2 3 4 5 6 envelope_property [of d k] show ?thesis by blast
qed

theorem late_join_replay_witness:
  "relayed_with step sample_of server0 events_450 = [sample_450]
   \<and> latestData (run_with step server0 events_450) = sample_450
   \<and> sends (fst (snd (on_connection all_fine 2 False (run_with step server0 events_450))))
       = [(2, Stringify (JObj sample_450))]
   \<and> relayed_with step_reg sample_of_reg server0 events_450_reg = [sample_450]
   \<and> latestData (run_with step_reg server0 events_450_reg) = sample_450
   \<and> sends (fst (snd (handleRegistration all_fine 2 (Some (JStr ''subscriber''))
          (run_with step_reg server0 events_450_reg))))
       = [(2, Stringify (registered_msg ''subscriber'')),
          (2, Stringify (JObj [(''type'', JStr ''data''), (''C'', JNum 450)]))]
   \<and> property (data_envelope sample_450) ''C'' = Some (JNum 450)"
  using late_join_replay [where evs = events_450 and s = "run_with step server0 events_450"
      and io = all_fine and ws = 2 and d = sample_450 and k = "''C''"]
    late_join_replay [where evs = events_450_reg and s = "run_with step_reg server0 events_450_reg"
      and io = all_fine and ws = 2 and role = "Some (JStr ''subscriber'')"]
  by (simp add: callback_defs callback_reg_defs concrete_defs sample_of_def sample_of_reg_def Let_def)

subsection \<open>Frames of the producer\<close>

lemma carries_C_iff: "carries_C data \<longleftrightarrow> property data ''C'' \<noteq> None"
  by (cases data) (auto simp: map_of_eq_None_iff)

text \<open>
  Claim C5, as stated, holds for every frame of the producer. \<open>part_002\<close> first looks
  at \<open>data.type\<close>: a frame of type \<open>register\<close> is handed to \<open>handleRegistration\<close>
  whatever else it carries. Sent by the installed producer, the frame
  \<open>{type: "register", C: 450}\<close> leaves \<open>latestData\<close> empty and makes the producer a
  subscriber; and a \<open>register\<close> frame without \<open>C\<close>, sent by the producer after
  \<open>{C: 450}\<close> was relayed, is answered with the acknowledgement and the stored sample.
\<close>

theorem register_frame_with_C_not_relayed_reg:
  "isPublisher (run_with step_reg server0
      [(all_fine, Connection 1 False), (all_fine, Message 1 (register_frame ''publisher''))]) 1
   \<and> latestData (fst (step_reg all_fine (Message 1 register_with_C)
        (run_with step_reg server0
          [(all_fine, Connection 1 False), (all_fine, Message 1 (register_frame ''publisher''))])))
       = []
   \<and> subscribers (fst (step_reg all_fine (Message 1 register_with_C)
        (run_with step_reg server0
          [(all_fine, Connection 1 False), (all_fine, Message 1 (register_frame ''publisher''))])))
       = [1]
   \<and> sends (fst (snd (step_reg all_fine (Message 1 (register_frame ''subscriber''))
        (run_with step_reg server0
          [(all_fine, Connection 1 False), (all_fine, Message 1 (register_frame ''publisher'')),
           (all_fine, Message 1 (Parsed (JObj sample_450)))]))))
       = [(1, Stringify (registered_msg ''subscriber'')), (1, Stringify (data_envelope sample_450))]"
  by (simp add: callback_reg_defs concrete_defs register_with_C_def Let_def)

text \<open>
  Claim C5, amended. For every frame of the producer that parses to a value without the
  field \<open>C\<close> (for example \<open>{"PH": 7.1}\<close>) and, in \<open>part_002\<close>, is not of type
  \<open>register\<close>, the message is discarded: nothing is sent to anyone and the state,
  \<open>latestData\<close> included, is unchanged. For every payload of the producer that carries
  \<open>C\<close> and, in \<open>part_002\<close>, is not of type \<open>register\<close>, \<open>latestData\<close> is set to the
  payload before the fan-out, which sends that payload to every subscriber.
\<close>

theorem producer_payload_validation:
  "(\<not> carries_C data \<longrightarrow>
      fst (on_message io True (Parsed data) s) = s
      \<and> sends (snd (on_message io True (Parsed data) s)) = [])
   \<and> (carries_C (JObj kvs) \<longrightarrow>
      on_message io True (Parsed (JObj kvs)) s = broadcastToSubscribers io kvs s
      \<and> latestData (fst (on_message io True (Parsed (JObj kvs)) s)) = kvs
      \<and> sends (snd (on_message io True (Parsed (JObj kvs)) s))
          = map (\<lambda>c. (c, Stringify (JObj kvs))) (subscribers s))
   \<and> (isPublisher s ws \<and> property data ''type'' \<noteq> Some (JStr ''register'') \<and> \<not> carries_C data \<longrightarrow>
      fst (on_message_reg io ws (Parsed data) s) = s
      \<and> sends (snd (on_message_reg io ws (Parsed data) s)) = [])
   \<and> (isPublisher s ws \<and> map_of kvs ''type'' \<noteq> Some (JStr ''register'') \<and> carries_C (JObj kvs) \<longrightarrow>
      on_message_reg io ws (Parsed (JObj kvs)) s
          = broadcastToSubscribers_reg io kvs (s\<lparr>latestData := kvs\<rparr>)
      \<and> latestData (fst (on_message_reg io ws (Parsed (JObj kvs)) s)) = kvs
      \<and> sends (snd (on_message_reg io ws (Parsed (JObj kvs)) s))
          = map (\<lambda>c. (c, Stringify (data_envelope kvs))) (subscribers s))"
proof -
  have 1: "\<not> carries_C data \<longrightarrow>
      fst (on_message io True (Parsed data) s) = s
      \<and> sends (snd (on_message io True (Parsed data) s)) = []"
    by (cases data) (simp_all add: on_message_def)
  have 2: "carries_C (JObj kvs) \<longrightarrow>
      on_message io True (Parsed (JObj kvs)) s = broadcastToSubscribers io kvs s
      \<and> latestData (fst (on_message io True (Parsed (JObj kvs)) s)) = kvs
      \<and> sends (snd (on_message io True (Parsed (JObj kvs)) s))
          = map (\<lambda>c. (c, Stringify (JObj kvs))) (subscribers s)"
    by (simp add: on_message_def broadcast_latest broadcast_sends)
  have 3: "isPublisher s ws \<and> property data ''type'' \<noteq> Some (JStr ''register'') \<and> \<not> carries_C data \<longrightarrow>
      fst (on_message_reg io ws (Parsed data) s) = s
      \<and> sends (snd (on_message_reg io ws (Parsed data) s)) = []"
    by (cases data) (simp_all add: on_message_reg_def map_of_eq_None_iff)
  have 4: "isPublisher s ws \<and> map_of kvs ''type'' \<noteq> Some (JStr ''register'') \<and> carries_C (JObj kvs) \<longrightarrow>
      on_message_reg io ws (Parsed (JObj kvs)) s
          = broadcastToSubscribers_reg io kvs (s\<lparr>latestData := kvs\<rparr>)
      \<and> latestData (fst (on_message_reg io ws (Parsed (JObj kvs)) s)) = kvs
      \<and> sends (snd (on_message_reg io ws (Parsed (JObj kvs)) s))
          = map (\<lambda>c. (c, Stringify (data_envelope kvs))) (subscribers s)"
    by (auto simp: on_message_reg_def broadcast_reg_latest broadcast_reg_sends map_of_eq_None_iff)
  from 1 2 3 4 show ?thesis by blast
qed

theorem producer_payload_validation_witness:
  "\<not> carries_C (JObj sample_PH) \<and> carries_C (JObj [(''C'', JNum 500)])
   \<and> isPublisher (three_consumers\<lparr>isPublisher := (\<lambda>c. c = 4), latestData := sample_450\<rparr>) 4
   \<and> fst (on_message all_fine True (Parsed (JObj sample_PH))
        (three_consumers\<lparr>isPublisher := (\<lambda>c. c = 4), latestData := sample_450\<rparr>))
       = three_consumers\<lparr>isPublisher := (\<lambda>c. c = 4), latestData := sample_450\<rparr>
   \<and> sends (snd (on_message all_fine True (Parsed (JObj sample_PH))
        (three_consumers\<lparr>isPublisher := (\<lambda>c. c = 4), latestData := sample_450\<rparr>))) = []
   \<and> latestData (fst (on_message all_fine True (Parsed (JObj [(''C'', JNum 500)]))
        (three_consumers\<lparr>isPublisher := (\<lambda>c. c = 4), latestData := sample_450\<rparr>)))
       = [(''C'', JNum 500)]
   \<and> sends (snd (on_message all_fine True (Parsed (JObj [(''C'', JNum 500)]))
        (three_consumers\<lparr>isPublisher := (\<lambda>c. c = 4), latestData := sample_450\<rparr>)))
       = [(1, Stringify (JObj [(''C'', JNum 500)])), (2, Stringify (JObj [(''C'', JNum 500)])),
          (3, Stringify (JObj [(''C'', JNum 500)]))]
   \<and> fst (on_message_reg all_fine 4 (Parsed (JObj sample_PH))
        (three_consumers\<lparr>isPublisher := (\<lambda>c. c = 4), latestData := sample_450\<rparr>))
       = three_consumers\<lparr>isPublisher := (\<lambda>c. c = 4), latestData := sample_450\<rparr>
   \<and> sends (snd (on_message_reg all_fine 4 (Parsed (JObj sample_PH))
        (three_consumers\<lparr>isPublisher := (\<lambda>c. c = 4), latestData := sample_450\<rparr>))) = []
   \<and> latestData (fst (on_message_reg all_fine 4 (Parsed (JObj [(''C'', JNum 500)]))
        (three_consumers\<lparr>isPublisher := (\<lambda>c. c = 4), latestData := sample_450\<rparr>)))
       = [(''C'', JNum 500)]"
  using producer_payload_validation [where data = "JObj sample_PH" and kvs = "[(''C'', JNum 500)]"
      and ws = 4 and io = all_fine
      and s = "three_consumers\<lparr>isPublisher := (\<lambda>c. c = 4), latestData := sample_450\<rparr>"]
  by (simp add: sample_PH_def three_consumers_def server0_def all_fine_def
        broadcast_latest broadcast_sends broadcast_reg_latest broadcast_reg_sends)

subsection \<open>One role for each socket\<close>

text \<open>
  Claim C6 says that no socket is at once the installed producer and a member of the
  consumer set. This holds on every run of \<open>src/server.ts\<close>, where the role is fixed
  when the socket connects (\<open>roles_exclusive\<close>). In \<open>part_002\<close>, \<open>handleRegistration\<close>
  runs for every \<open>register\<close> frame: a socket that registers as subscriber and then as
  publisher is both. When it closes, the \<open>close\<close> listener clears the slot and, taking
  the other branch for subscribers only, leaves the closed socket in the subscriber
  array.
\<close>

theorem socket_is_publisher_and_subscriber_reg:
  "publisher (run_with step_reg server0
      [(all_fine, Connection 1 False),
       (all_fine, Message 1 (register_frame ''subscriber'')),
       (all_fine, Message 1 (register_frame ''publisher''))]) = Some 1
   \<and> subscribers (run_with step_reg server0
      [(all_fine, Connection 1 False),
       (all_fine, Message 1 (register_frame ''subscriber'')),
       (all_fine, Message 1 (register_frame ''publisher''))]) = [1]
   \<and> publisher (run_with step_reg server0
      [(all_fine, Connection 1 False),
       (all_fine, Message 1 (register_frame ''subscriber'')),
       (all_fine, Message 1 (register_frame ''publisher'')),
       (all_fine, Closed 1)]) = None
   \<and> subscribers (run_with step_reg server0
      [(all_fine, Connection 1 False),
       (all_fine, Message 1 (register_frame ''subscriber'')),
       (all_fine, Message 1 (register_frame ''publisher'')),
       (all_fine, Closed 1)]) = [1]"
  by (simp add: callback_reg_defs concrete_defs Let_def)

subsection \<open>Removing the producer\<close>

text \<open>
  Claim C7. \<open>removeProducer(conn)\<close> clears the producer slot only if the slot still equals
  \<open>conn\<close>. The \<open>close\<close> listener of a socket leaves the slot as it is unless the slot holds
  that very socket (and, in \<open>src/server.ts\<close>, the socket connected as publisher; in
  \<open>part_002\<close>, its flag \<open>isPublisher\<close> is set). So when the \<open>close\<close> event of a superseded
  producer \<open>old\<close> fires after \<open>new\<close> was installed, \<open>new\<close> stays installed.
\<close>

theorem removeProducer_guard:
  "publisher (on_close conn isPub s) = (if isPub \<and> publisher s = Some conn then None else publisher s)
   \<and> publisher (on_close_reg conn s) =
         (if isPublisher s conn \<and> publisher s = Some conn then None else publisher s)
   \<and> (old \<noteq> new \<longrightarrow> publisher (on_close old True (fst (on_connection io new True s))) = Some new)
   \<and> (old \<noteq> new \<longrightarrow>
         publisher (on_close_reg old (fst (handleRegistration io new (Some (JStr ''publisher'')) s)))
           = Some new)"
  by (simp add: on_close_def on_close_reg_def on_connection_def handleRegistration_def Let_def)

theorem removeProducer_guard_witness:
  "(1::nat) \<noteq> 2
   \<and> publisher (fst (on_connection all_fine 2 True (fst (on_connection all_fine 1 True server0)))) = Some 2
   \<and> publisher (on_close 1 True (fst (on_connection all_fine 2 True (fst (on_connection all_fine 1 True server0))))) = Some 2
   \<and> publisher (on_close_reg 1 (fst (handleRegistration all_fine 2 (Some (JStr ''publisher''))
        (fst (on_connection all_fine 1 True server0))))) = Some 2
   \<and> publisher (on_close 2 True (fst (on_connection all_fine 2 True (fst (on_connection all_fine 1 True server0))))) = None"
  using removeProducer_guard [where old = 1 and new = 2 and io = all_fine
      and s = "fst (on_connection all_fine 1 True server0)"]
    removeProducer_guard [where conn = 2 and isPub = True
      and s = "fst (on_connection all_fine 2 True (fst (on_connection all_fine 1 True server0)))"]
  by (simp add: on_connection_def Let_def)

subsection \<open>The first send to a new subscriber\<close>



subsection \<open>The health endpoint\<close>

text \<open>
  Claim C9, as stated, gives \<open>GET /health\<close> the fields \<open>subscriber_count\<close> and
  \<open>producer_connected\<close>, the latter a boolean. The handler has no such fields: the
  object it returns has the keys \<open>status\<close>, \<open>subscribers\<close> and \<open>publisher\<close>, and
  \<open>publisher\<close> is a string.
\<close>

theorem health_has_no_producer_connected_field:
  "map_of (health server0) ''producer_connected'' = None
   \<and> map_of (health server0) ''subscriber_count'' = None
   \<and> map_of (health server0) ''publisher'' = Some (JStr ''disconnected'')
   \<and> map_of (health (server0\<lparr>publisher := Some 1\<rparr>)) ''publisher'' = Some (JStr ''connected'')"
  by (simp add: health_def server0_def)

text \<open>
  Claim C9, amended. For every state of the registry, \<open>GET /health\<close> returns the object
  \<open>{status: "healthy", subscribers, publisher}\<close>, where \<open>subscribers\<close> is the length of
  the subscriber array and \<open>publisher\<close> is the string \<open>connected\<close> exactly when a producer
  is installed, and the string \<open>disconnected\<close> otherwise.
\<close>

theorem health_reports_subscribers_and_publisher:
  "map fst (health s) = [''status'', ''subscribers'', ''publisher'']
   \<and> map_of (health s) ''status'' = Some (JStr ''healthy'')
   \<and> map_of (health s) ''subscribers'' = Some (JNum (of_nat (length (subscribers s))))
   \<and> map_of (health s) ''publisher''
        = Some (JStr (if publisher s = None then ''disconnected'' else ''connected''))
   \<and> (map_of (health s) ''publisher'' = Some (JStr ''connected'') \<longleftrightarrow> publisher s \<noteq> None)"
  by (simp add: health_def)

theorem health_reports_subscribers_and_publisher_witness:
  "map_of (health (three_consumers\<lparr>publisher := Some 4\<rparr>)) ''subscribers'' = Some (JNum 3)
   \<and> map_of (health (three_consumers\<lparr>publisher := Some 4\<rparr>)) ''publisher'' = Some (JStr ''connected'')
   \<and> map_of (health server0) ''publisher'' = Some (JStr ''disconnected'')"
  using health_reports_subscribers_and_publisher [of "three_consumers\<lparr>publisher := Some 4\<rparr>"]
    health_reports_subscribers_and_publisher [of server0]
  by (simp add: three_consumers_def server0_def)

subsection \<open>Frames of a consumer\<close>

text \<open>
  Claim C10. A data message that arrives from a socket whose role is not producer is
  never broadcast and changes nothing: no \<open>send\<close> is called and the state (\<open>latestData\<close>,
  the producer slot, the subscribers) is the same afterwards, whether or not the
  message carries \<open>C\<close>. In \<open>src/server.ts\<close> this holds for every frame of such a socket.
  In \<open>part_002\<close> a frame of type \<open>register\<close> is a registration and never reaches the
  branch for data; a data message there is a frame that parses to a value of any other
  type.
\<close>

theorem consumer_frames_change_nothing:
  "(\<not> isPublisher s ws \<longrightarrow>
      fst (step io (Message ws m) s) = s \<and> sends (fst (snd (step io (Message ws m) s))) = [])
   \<and> (\<not> isPublisher s ws \<and> property data ''type'' \<noteq> Some (JStr ''register'') \<longrightarrow>
      fst (step_reg io (Message ws (Parsed data)) s) = s
      \<and> sends (fst (snd (step_reg io (Message ws (Parsed data)) s))) = [])"
proof -
  have 1: "fst (on_message io False m s) = s \<and> sends (snd (on_message io False m s)) = []"
    by (simp add: on_message_def split: frame.splits json.splits)
  have 2: "\<not> isPublisher s ws \<and> property data ''type'' \<noteq> Some (JStr ''register'') \<longrightarrow>
      fst (on_message_reg io ws (Parsed data) s) = s
      \<and> sends (snd (on_message_reg io ws (Parsed data) s)) = []"
    by (cases data) (simp_all add: on_message_reg_def)
  from 1 2 show ?thesis
    by (simp add: step_def step_reg_def split_beta)
qed

theorem consumer_frames_change_nothing_witness:
  "\<not> isPublisher three_consumers 2
   \<and> carries_C (JObj sample_450)
   \<and> property (JObj sample_450) ''type'' \<noteq> Some (JStr ''register'')
   \<and> fst (step all_fine (Message 2 (Parsed (JObj sample_450))) three_consumers) = three_consumers
   \<and> sends (fst (snd (step all_fine (Message 2 (Parsed (JObj sample_450))) three_consumers))) = []
   \<and> fst (step_reg all_fine (Message 2 (Parsed (JObj sample_450))) three_consumers) = three_consumers
   \<and> sends (fst (snd (step_reg all_fine (Message 2 (Parsed (JObj sample_450))) three_consumers))) = []"
  using consumer_frames_change_nothing [where s = three_consumers and ws = 2 and io = all_fine
      and m = "Parsed (JObj sample_450)" and data = "JObj sample_450"]
  by (simp add: sample_450_def three_consumers_def server0_def)

end
